theory Spec2Isabelle
  imports Complex_Main "HOL-Library.Char_ord" "HOL-Library.List_Lexorder" "HOL-Library.Sublist"
begin

section \<open>The notebook \<open>ipta_gwa_tutorial_part2.ipynb\<close>\<close>

text \<open>
  The notebook is Python 2 glue code around the \<open>enterprise\<close> library. Its own logic is
  the two waveform functions \<open>chrom_exp_decay\<close> and \<open>chrom_yearly_sinusoid\<close>, the
  filtering of the globbed file lists, the loading of the noise dictionaries, the two
  model-assembly loops and the post-processing of a chain into an upper limit.

  Numbers: each waveform function is embedded twice. \<open>chrom_exp_decay\<close> and
  \<open>chrom_yearly_sinusoid\<close> evaluate the body in exact real arithmetic: they say which
  formula the body is, and nothing about rounding, overflow, \<open>inf\<close> or \<open>nan\<close>.
  \<open>chrom_exp_decay_f64\<close> and \<open>chrom_yearly_sinusoid_f64\<close> evaluate the same body in
  float64: every operation rounds to the nearest double, overflows to an infinity and
  follows the IEEE rules for infinities and \<open>nan\<close>. Statements about what the machine
  returns are made of the float64 functions.
\<close>

subsection \<open>Exceptions\<close>

datatype error = ValueError | IndexError | IOError | OverflowError | TypeError

subsection \<open>The constants of \<open>enterprise.constants\<close> the notebook reads\<close>

text \<open>
  \<open>const.day\<close> and \<open>const.fyr\<close> belong to the imported library, not to the notebook;
  every function that reads them takes them as a parameter.
\<close>

record constants =
  day :: real
  fyr :: real

subsection \<open>numpy on one-dimensional arrays\<close>

text \<open>
  A one-dimensional array is a list. An operation between an array and a scalar maps over
  the array. An operation between two arrays follows numpy's broadcasting for one
  dimension: equal lengths go elementwise, an array of length one is stretched, and any
  other pair of shapes raises \<open>ValueError\<close>.
\<close>

definition broadcast2 ::
  "('a \<Rightarrow> 'b \<Rightarrow> 'c) \<Rightarrow> 'a list \<Rightarrow> 'b list \<Rightarrow> error + 'c list" where
  "broadcast2 f xs ys =
     (if length xs = length ys then Inr (map2 f xs ys)
      else if length xs = 1 then Inr (map (f (hd xs)) ys)
      else if length ys = 1 then Inr (map (\<lambda>x. f x (hd ys)) xs)
      else Inl ValueError)"


text \<open>
  \<open>x ** y\<close> on floats (C's \<open>pow\<close>): the real power for a positive base, the integer
  power for an integral exponent, and 0 for a zero base with a positive exponent.
\<close>

definition np_power :: "real \<Rightarrow> real \<Rightarrow> real" where
  "np_power x y =
     (if 0 < x then x powr y
      else if y = of_int \<lfloor>y\<rfloor> then x powi \<lfloor>y\<rfloor>
      else 0)"

subsection \<open>The waveform functions in exact arithmetic\<close>


text \<open>
  \<^verbatim>\<open>
  def chrom_yearly_sinusoid(toas, freqs, log10_Amp=-7, phase=0, idx=2):
      wf = 10**log10_Amp * np.sin( 2 * np.pi * const.fyr * toas + phase)
      return wf * (1400 / freqs) ** idx
  \<close>
\<close>

definition chrom_yearly_sinusoid ::
  "constants \<Rightarrow> real list \<Rightarrow> real list \<Rightarrow> real \<Rightarrow> real \<Rightarrow> real \<Rightarrow> error + real list"
  where
  "chrom_yearly_sinusoid c toas freqs log10_Amp phase idx =
     (let arg = map (\<lambda>x. x + phase) (map (\<lambda>t. 2 * pi * fyr c * t) toas);
          wf' = map (\<lambda>x. 10 powr log10_Amp * x) (map sin arg)
      in broadcast2 (*) wf' (map (\<lambda>x. np_power x idx) (map (\<lambda>f. 1400 / f) freqs)))"

subsection \<open>The closed forms, as the specification writes them\<close>

text \<open>
  The delay of the exponential dip at one TOA \<open>t\<close> and one frequency \<open>f\<close>, with the
  Heaviside step \<open>H\<close> taking the value 1 at 0 and a day of \<open>dy\<close> seconds.
\<close>

definition H :: "real \<Rightarrow> real" where
  "H x = (if 0 \<le> x then 1 else 0)"

definition exp_dip_formula :: "real \<Rightarrow> real \<Rightarrow> real \<Rightarrow> real \<Rightarrow> real \<Rightarrow> real \<Rightarrow> real \<Rightarrow> real" where
  "exp_dip_formula dy log10_Amp t0 log10_tau idx t f =
     - (10 powr log10_Amp) * H (t - t0 * dy)
       * exp (- (t - t0 * dy) / (10 powr log10_tau * dy))
       * np_power (1400 / f) idx"

definition yearly_formula :: "real \<Rightarrow> real \<Rightarrow> real \<Rightarrow> real \<Rightarrow> real \<Rightarrow> real \<Rightarrow> real" where
  "yearly_formula fy log10_Amp phase idx t f =
     10 powr log10_Amp * sin (2 * pi * fy * t + phase) * np_power (1400 / f) idx"

subsection \<open>float64\<close>

text \<open>
  A float64 value is a finite number, one of the two infinities, or \<open>nan\<close>. The sign of a
  zero is not kept: it can show only in the sign of an infinity produced by dividing by
  that zero. The largest finite double is \<open>(2^53 - 1) * 2^971\<close>.
\<close>

datatype f64 = Fin real | PInf | NInf | NaN

definition f64_max :: real where
  "f64_max = (2 ^ 53 - 1) * 2 ^ 971"

text \<open>Rounding to the nearest integer, a tie going to the even one.\<close>

definition rne :: "real \<Rightarrow> int" where
  "rne x =
     (let f = \<lfloor>x\<rfloor>; d = x - of_int f
      in if d < 1 / 2 then f
         else if 1 / 2 < d then f + 1
         else if even f then f else f + 1)"

text \<open>
  Rounding a real to float64 (round to nearest, ties to even): a number with binary
  exponent \<open>e\<close> is rounded to a multiple of \<open>2^(e - 52)\<close>, the exponent being at least
  \<open>-1022\<close> (below it the doubles are equally spaced); a result beyond the largest double
  is an infinity.
\<close>

definition f64_round :: "real \<Rightarrow> f64" where
  "f64_round x =
     (if x = 0 then Fin 0
      else (let e = max \<lfloor>log 2 \<bar>x\<bar>\<rfloor> (- 1022);
                u = 2 powi (e - 52);
                r = of_int (rne (x / u)) * u
            in if f64_max < r then PInf
               else if r < - f64_max then NInf
               else Fin r))"

text \<open>
  The arithmetic of IEEE 754: the exact result rounded, with the usual rules for the
  infinities and \<open>nan\<close>. On arrays numpy divides by zero without raising.
\<close>

fun fneg :: "f64 \<Rightarrow> f64" where
  "fneg (Fin x) = Fin (- x)"
| "fneg PInf = NInf"
| "fneg NInf = PInf"
| "fneg NaN = NaN"

fun fadd :: "f64 \<Rightarrow> f64 \<Rightarrow> f64" where
  "fadd (Fin x) (Fin y) = f64_round (x + y)"
| "fadd NaN b = NaN"
| "fadd a NaN = NaN"
| "fadd PInf NInf = NaN"
| "fadd NInf PInf = NaN"
| "fadd PInf b = PInf"
| "fadd a PInf = PInf"
| "fadd NInf b = NInf"
| "fadd a NInf = NInf"

definition fsub :: "f64 \<Rightarrow> f64 \<Rightarrow> f64" where
  "fsub a b = fadd a (fneg b)"

fun fmul :: "f64 \<Rightarrow> f64 \<Rightarrow> f64" where
  "fmul (Fin x) (Fin y) = f64_round (x * y)"
| "fmul NaN b = NaN"
| "fmul a NaN = NaN"
| "fmul (Fin x) PInf = (if x = 0 then NaN else if 0 < x then PInf else NInf)"
| "fmul (Fin x) NInf = (if x = 0 then NaN else if 0 < x then NInf else PInf)"
| "fmul PInf (Fin y) = (if y = 0 then NaN else if 0 < y then PInf else NInf)"
| "fmul NInf (Fin y) = (if y = 0 then NaN else if 0 < y then NInf else PInf)"
| "fmul PInf PInf = PInf"
| "fmul PInf NInf = NInf"
| "fmul NInf PInf = NInf"
| "fmul NInf NInf = PInf"

fun fdiv :: "f64 \<Rightarrow> f64 \<Rightarrow> f64" where
  "fdiv (Fin x) (Fin y) =
     (if y = 0 then (if x = 0 then NaN else if 0 < x then PInf else NInf)
      else f64_round (x / y))"
| "fdiv NaN b = NaN"
| "fdiv a NaN = NaN"
| "fdiv (Fin x) PInf = Fin 0"
| "fdiv (Fin x) NInf = Fin 0"
| "fdiv PInf (Fin y) = (if 0 \<le> y then PInf else NInf)"
| "fdiv NInf (Fin y) = (if 0 \<le> y then NInf else PInf)"
| "fdiv PInf b = NaN"
| "fdiv NInf b = NaN"

text \<open>
  \<open>np.exp\<close>, \<open>np.sin\<close> and \<open>**\<close> are taken as correctly rounded. \<open>np.exp\<close> of a
  large argument overflows to \<open>inf\<close>.
\<close>

fun fexp :: "f64 \<Rightarrow> f64" where
  "fexp (Fin x) = f64_round (exp x)"
| "fexp PInf = PInf"
| "fexp NInf = Fin 0"
| "fexp NaN = NaN"

fun fsin :: "f64 \<Rightarrow> f64" where
  "fsin (Fin x) = f64_round (sin x)"
| "fsin a = NaN"

fun fheaviside :: "f64 \<Rightarrow> f64 \<Rightarrow> f64" where
  "fheaviside (Fin x1) x2 = (if x1 < 0 then Fin 0 else if x1 = 0 then x2 else Fin 1)"
| "fheaviside PInf x2 = Fin 1"
| "fheaviside NInf x2 = Fin 0"
| "fheaviside NaN x2 = NaN"

text \<open>\<open>x ** y\<close> for an array entry \<open>x\<close> and a finite scalar \<open>y\<close> (C's \<open>pow\<close>).\<close>

fun fpow :: "f64 \<Rightarrow> real \<Rightarrow> f64" where
  "fpow (Fin x) y =
     (if y = 0 \<or> x = 1 then Fin 1
      else if 0 < x then f64_round (x powr y)
      else if x = 0 then (if 0 < y then Fin 0 else PInf)
      else if y = of_int \<lfloor>y\<rfloor> then f64_round (x powi \<lfloor>y\<rfloor>)
      else NaN)"
| "fpow PInf y = (if y = 0 then Fin 1 else if 0 < y then PInf else Fin 0)"
| "fpow NInf y =
     (if y = 0 then Fin 1
      else if y < 0 then Fin 0
      else if y = of_int \<lfloor>y\<rfloor> \<and> odd \<lfloor>y\<rfloor> then NInf else PInf)"
| "fpow NaN y = (if y = 0 then Fin 1 else NaN)"

text \<open>
  \<open>10**x\<close> for a Python float \<open>x\<close>: Python raises \<open>OverflowError\<close> where the power
  overflows.
\<close>

definition py_pow10 :: "real \<Rightarrow> error + f64" where
  "py_pow10 x =
     (case f64_round (10 powr x) of
        PInf \<Rightarrow> Inl OverflowError
      | r \<Rightarrow> Inr r)"

text \<open>\<open>np.pi\<close> is the double nearest to \<open>pi\<close>, 3.141592653589793.\<close>

definition np_pi :: real where
  "np_pi = 884279719003555 / 2 ^ 48"

subsection \<open>The waveform functions in float64\<close>

text \<open>
  The two bodies again, operation by operation, on float64. The arrays hold float64
  values; the scalar parameters and the constants are finite floats. The statements
  run in the order of the source, so the power of \<open>log10_tau\<close> is taken, and may raise,
  before the power of \<open>log10_Amp\<close>.
\<close>

definition chrom_exp_decay_f64 ::
  "constants \<Rightarrow> f64 list \<Rightarrow> f64 list \<Rightarrow> real \<Rightarrow> real \<Rightarrow> real \<Rightarrow> real \<Rightarrow> error + f64 list"
  where
  "chrom_exp_decay_f64 c toas freqs log10_Amp t0 log10_tau idx =
     (let t0' = fmul (Fin t0) (Fin (day c))
      in case py_pow10 log10_tau of
           Inl err \<Rightarrow> Inl err
         | Inr p \<Rightarrow>
             (let tau = fmul p (Fin (day c))
              in case py_pow10 log10_Amp of
                   Inl err \<Rightarrow> Inl err
                 | Inr a \<Rightarrow>
                     (let h = map (\<lambda>x. fheaviside x (Fin 1)) (map (\<lambda>t. fsub t t0') toas);
                          ah = map (fmul (fneg a)) h;
                          e = map fexp (map (\<lambda>x. fdiv x tau)
                                (map fneg (map (\<lambda>t. fsub t t0') toas)))
                      in case broadcast2 fmul ah e of
                           Inl err \<Rightarrow> Inl err
                         | Inr wf' \<Rightarrow>
                             broadcast2 fmul wf'
                               (map (\<lambda>x. fpow x idx) (map (fdiv (Fin 1400)) freqs)))))"

definition chrom_yearly_sinusoid_f64 ::
  "constants \<Rightarrow> f64 list \<Rightarrow> f64 list \<Rightarrow> real \<Rightarrow> real \<Rightarrow> real \<Rightarrow> error + f64 list"
  where
  "chrom_yearly_sinusoid_f64 c toas freqs log10_Amp phase idx =
     (case py_pow10 log10_Amp of
        Inl err \<Rightarrow> Inl err
      | Inr a \<Rightarrow>
          (let k = fmul (fmul (Fin 2) (Fin np_pi)) (Fin (fyr c));
               arg = map (\<lambda>x. fadd x (Fin phase)) (map (fmul k) toas);
               wf' = map (fmul a) (map fsin arg)
           in broadcast2 fmul wf'
                (map (\<lambda>x. fpow x idx) (map (fdiv (Fin 1400)) freqs))))"

subsection \<open>Selecting the par and tim files\<close>

text \<open>
  \<^verbatim>\<open>
  psrdict = {'J1713+0747': [{'pta': ['NANOGrav', 'PPTA']}], ...}
  psrlist=psrdict.keys()
  \<close>
  The dictionary literal, in the order it is written. Only membership in its key list is
  ever used, so the order Python 2 gives the keys does not matter.
\<close>

definition psrdict :: "(string \<times> string list) list" where
  "psrdict =
     [(''J1713+0747'', [''NANOGrav'', ''PPTA'']),
      (''J1909-3744'', [''NANOGrav'', ''PPTA'']),
      (''J1640+2224'', [''NANOGrav'']),
      (''J1600-3053'', [''NANOGrav'']),
      (''J2317+1439'', [''NANOGrav'']),
      (''J1918-0642'', [''NANOGrav'']),
      (''J1614-2230'', [''NANOGrav'']),
      (''J1744-1134'', [''NANOGrav'', ''PPTA'']),
      (''J0030+0451'', [''NANOGrav'']),
      (''J2145-0750'', [''NANOGrav'']),
      (''J1857+0943'', [''NANOGrav'']),
      (''J1853+1303'', [''NANOGrav'']),
      (''J0613-0200'', [''NANOGrav'']),
      (''J1455-3330'', [''NANOGrav'']),
      (''J1741+1351'', [''NANOGrav'']),
      (''J2010-1323'', [''NANOGrav'']),
      (''J1024-0719'', [''NANOGrav'']),
      (''J1012+5307'', [''NANOGrav'']),
      (''J0437-4715'', [''PPTA''])]"

definition psrlist :: "string list" where
  "psrlist = map fst psrdict"

text \<open>
  \<open>s.split(sep)\<close> for a separator of one character: the pieces between the
  separators, one more than there are separators, so never an empty list.
\<close>

fun split :: "char \<Rightarrow> string \<Rightarrow> string list" where
  "split sep [] = [[]]"
| "split sep (c # cs) =
     (if c = sep then [] # split sep cs
      else (case split sep cs of
              [] \<Rightarrow> [[c]]
            | w # ws \<Rightarrow> (c # w) # ws))"

text \<open>
  \<open>x.split('/')[-1].split('.')[0]\<close>. Both lists are non-empty (\<open>split_not_Nil\<close>
  below), so neither index raises.
\<close>

definition psr_of_path :: "string \<Rightarrow> string" where
  "psr_of_path x = hd (split CHR ''.'' (last (split CHR ''/'' x)))"

text \<open>
  \<^verbatim>\<open>
  parfiles = sorted(glob.glob(datadir + '/*.par'))
  parfiles = [x for x in parfiles if x.split('/')[-1].split('.')[0] in psrlist]
  \<close>
  and the same for \<open>timfiles\<close>. What \<open>glob.glob\<close> returns is a parameter. Python 2
  compares byte strings lexicographically by character code, which is the order of
  \<open>string\<close> here.
\<close>

definition filter_files :: "string list \<Rightarrow> string list" where
  "filter_files files = [x \<leftarrow> files. psr_of_path x \<in> set psrlist]"

definition parfiles :: "string list \<Rightarrow> string list" where
  "parfiles glob_par = filter_files (sort glob_par)"

definition timfiles :: "string list \<Rightarrow> string list" where
  "timfiles glob_tim = filter_files (sort glob_tim)"

text \<open>
  The words of the specification: the basename of a path is what follows its last
  \<open>/\<close>, and the pulsar name is the part of the basename before its first \<open>.\<close>.
\<close>

definition basename :: "string \<Rightarrow> string" where
  "basename x = rev (takeWhile (\<lambda>c. c \<noteq> CHR ''/'') (rev x))"

definition name_prefix :: "string \<Rightarrow> string" where
  "name_prefix x = takeWhile (\<lambda>c. c \<noteq> CHR ''.'') (basename x)"

subsection \<open>Loading the noise dictionaries\<close>

text \<open>
  \<^verbatim>\<open>
  noisefiles = sorted(glob.glob('./partim_filtered_ppta_ng/noisefiles_ppta_ng_normal/*.json'))
  params = {}
  for nf in noisefiles:
      with open(nf, 'r') as fin:
          params.update(json.load(fin))
  \<close>
  Opening and parsing one file is the parameter \<open>load\<close>, which returns the file's
  dictionary or raises; the \<open>with\<close> block closes the file and lets the exception pass.
  \<open>dict.update\<close> is \<open>++\<close>: the keys of the argument win.
\<close>

fun update_loop ::
  "(string \<Rightarrow> 'e + (string \<rightharpoonup> 'v)) \<Rightarrow> (string \<rightharpoonup> 'v) \<Rightarrow> string list \<Rightarrow> 'e + (string \<rightharpoonup> 'v)"
  where
  "update_loop load params [] = Inr params"
| "update_loop load params (nf # nfs) =
     (case load nf of
        Inl e \<Rightarrow> Inl e
      | Inr d \<Rightarrow> update_loop load (params ++ d) nfs)"

definition noisefiles :: "string list \<Rightarrow> string list" where
  "noisefiles glob_json = sort glob_json"

definition load_params ::
  "(string \<Rightarrow> 'e + (string \<rightharpoonup> 'v)) \<Rightarrow> string list \<Rightarrow> 'e + (string \<rightharpoonup> 'v)" where
  "load_params load glob_json = update_loop load Map.empty (noisefiles glob_json)"

subsection \<open>Assembling the models\<close>

text \<open>
  The signal terms the notebook builds: \<open>ef\<close>, \<open>eq\<close>, \<open>ec\<close>, \<open>rn\<close>, \<open>dm_gp\<close>,
  \<open>tm\<close>, \<open>eph\<close>, \<open>gw\<close>, the annual DM term of \<open>dm_annual_signal()\<close> and the dip of
  \<open>dm_exponential_dip(tmin, tmax)\<close> with its search window. Adding signals makes a
  collection, here the list of its terms; applying a collection to a pulsar gives that
  pulsar's model.
\<close>

datatype signal =
    MeasurementNoise
  | EquadNoise
  | EcorrKernelNoise
  | RedNoise
  | DmGP
  | TimingModel
  | PhysicalEphemerisSignal
  | GWB
  | DmAnnual
  | DmExpDip real real

record pulsar =
  psr_name :: string
  flags_pta :: "string list"

type_synonym model = "signal list \<times> pulsar"

text \<open>\<open>s = ef + eq + rn + dm_gp + tm + eph + gw\<close>\<close>

definition s_full :: "signal list" where
  "s_full = [MeasurementNoise, EquadNoise, RedNoise, DmGP, TimingModel,
             PhysicalEphemerisSignal, GWB]"

text \<open>
  \<^verbatim>\<open>
  models = []
  for p in psrs:
      if 'NANOGrav' in p.flags['pta']:
          s2 = s + ec
          models.append(s2(p))
      else:
          models.append(s(p))
  \<close>
  \<open>p.flags['pta']\<close> is the array of the \<open>pta\<close> flag of every TOA; \<open>in\<close> asks whether
  some entry equals the string.
\<close>

fun assemble1 :: "signal list \<Rightarrow> model list \<Rightarrow> pulsar list \<Rightarrow> model list" where
  "assemble1 s models [] = models"
| "assemble1 s models (p # ps) =
     (if ''NANOGrav'' \<in> set (flags_pta p)
      then assemble1 s (models @ [(s @ [EcorrKernelNoise], p)]) ps
      else assemble1 s (models @ [(s, p)]) ps)"

definition models1 :: "pulsar list \<Rightarrow> model list" where
  "models1 psrs = assemble1 s_full [] psrs"

text \<open>\<open>np.min\<close> and \<open>np.max\<close> of a list raise \<open>ValueError\<close> on an empty one.\<close>

definition np_min :: "real list \<Rightarrow> error + real" where
  "np_min xs = (if xs = [] then Inl ValueError else Inr (Min (set xs)))"

definition np_max :: "real list \<Rightarrow> error + real" where
  "np_max xs = (if xs = [] then Inl ValueError else Inr (Max (set xs)))"

text \<open>
  \<^verbatim>\<open>
  s = ef + eq + rn + dm_gp + tm + eph + gw
  s += dm_annual_signal()
  models = []
  for p in psrs:
      if 'NANOGrav' in p.flags['pta']:
          s2 = s + ec
          if p.name == 'J1713+0747':
              s3 = s2 + dm_exponential_dip(tmin=(np.min(tmin)/86400.0),
                                           tmax=(np.max(tmax)/86400.0))
              models.append(s3(p))
          else:
              models.append(s2(p))
      else:
          models.append(s(p))
  \<close>
  \<open>tmin\<close> and \<open>tmax\<close> are the notebook's lists of the first and last TOA of every
  pulsar.
\<close>

fun assemble2 ::
  "real list \<Rightarrow> real list \<Rightarrow> signal list \<Rightarrow> model list \<Rightarrow> pulsar list \<Rightarrow> error + model list"
  where
  "assemble2 tmin tmax s models [] = Inr models"
| "assemble2 tmin tmax s models (p # ps) =
     (if ''NANOGrav'' \<in> set (flags_pta p)
      then (let s2 = s @ [EcorrKernelNoise]
            in if psr_name p = ''J1713+0747''
               then (case np_min tmin of
                       Inl e \<Rightarrow> Inl e
                     | Inr lo \<Rightarrow>
                         (case np_max tmax of
                            Inl e \<Rightarrow> Inl e
                          | Inr hi \<Rightarrow>
                              assemble2 tmin tmax s
                                (models @ [(s2 @ [DmExpDip (lo / 86400) (hi / 86400)], p)]) ps))
               else assemble2 tmin tmax s (models @ [(s2, p)]) ps)
      else assemble2 tmin tmax s (models @ [(s, p)]) ps)"

definition models2 :: "real list \<Rightarrow> real list \<Rightarrow> pulsar list \<Rightarrow> error + model list" where
  "models2 tmin tmax psrs = assemble2 tmin tmax (s_full @ [DmAnnual]) [] psrs"

definition is_dip :: "signal \<Rightarrow> bool" where
  "is_dip t = (case t of DmExpDip lo hi \<Rightarrow> True | _ \<Rightarrow> False)"

subsection \<open>From a chain to an upper limit\<close>
















section \<open>Properties of the waveform functions in exact arithmetic\<close>


lemma np_power_pos: "0 < x \<Longrightarrow> np_power x y = x powr y"
  by (simp add: np_power_def)



lemma map2_map_left: "map2 f (map g xs) ys = map2 (\<lambda>x y. f (g x) y) xs ys"
  by (induction xs arbitrary: ys) (simp, case_tac ys, simp_all)

lemma map2_map_right: "map2 f xs (map g ys) = map2 (\<lambda>x y. f x (g y)) xs ys"
  by (induction xs arbitrary: ys) (simp, case_tac ys, simp_all)

lemma broadcast2_map:
  "broadcast2 f (map g xs) (map h ys) = broadcast2 (\<lambda>x y. f (g x) (h y)) xs ys"
proof -
  have one: "length zs = 1 \<Longrightarrow> hd (map k zs) = k (hd zs)" for zs :: "'x list" and k :: "'x \<Rightarrow> 'y"
    by (cases zs) simp_all
  show ?thesis
    by (auto simp: broadcast2_def map2_map_left map2_map_right one)
qed


lemma yearly_pipeline:
  "chrom_yearly_sinusoid c toas freqs A phase idx =
     broadcast2 (yearly_formula (fyr c) A phase idx) toas freqs"
proof -
  let ?g = "\<lambda>t. 10 powr A * sin (2 * pi * fyr c * t + phase)"
  have "chrom_yearly_sinusoid c toas freqs A phase idx =
          broadcast2 (*) (map ?g toas) (map (\<lambda>f. np_power (1400 / f) idx) freqs)"
    by (simp add: chrom_yearly_sinusoid_def Let_def o_def)
  also have "\<dots> = broadcast2 (\<lambda>t f. ?g t * np_power (1400 / f) idx) toas freqs"
    by (simp only: broadcast2_map)
  also have "(\<lambda>t f. ?g t * np_power (1400 / f) idx) = yearly_formula (fyr c) A phase idx"
    by (intro ext) (simp add: yearly_formula_def)
  finally show ?thesis .
qed

lemma yearly_formula_shift:
  assumes "fy \<noteq> 0"
  shows "yearly_formula fy A phase idx (t + 1 / fy) f = yearly_formula fy A phase idx t f"
proof -
  from assms have "2 * pi * fy * (t + 1 / fy) + phase = (2 * pi * fy * t + phase) + 2 * pi"
    by (simp add: algebra_simps)
  then show ?thesis
    by (simp only: yearly_formula_def sin_periodic)
qed



text \<open>
  Claim C3, as amended. In exact real arithmetic the annual sinusoid has the period
  \<open>1 / fyr\<close>: adding one year to every TOA leaves the returned delays unchanged.
  In float64 the two results differ by rounding, as the float64 properties below show.
\<close>

theorem chrom_yearly_sinusoid_periodic:
  assumes "0 < fyr c"
  shows "chrom_yearly_sinusoid c (map (\<lambda>t. t + 1 / fyr c) toas) freqs log10_Amp phase idx
           = chrom_yearly_sinusoid c toas freqs log10_Amp phase idx"
proof -
  have "broadcast2 (yearly_formula (fyr c) log10_Amp phase idx)
          (map (\<lambda>t. t + 1 / fyr c) toas) (map (\<lambda>f. f) freqs)
      = broadcast2 (\<lambda>t f. yearly_formula (fyr c) log10_Amp phase idx (t + 1 / fyr c) f)
          toas freqs"
    by (rule broadcast2_map)
  with assms show ?thesis
    by (simp add: yearly_pipeline yearly_formula_shift)
qed

theorem chrom_yearly_sinusoid_periodic_witness:
  "0 < fyr \<lparr>day = 86400, fyr = 1 / 31557600\<rparr> \<and>
   chrom_yearly_sinusoid \<lparr>day = 86400, fyr = 1 / 31557600\<rparr>
     [31557600, 39447000] [1400, 700] (- 7) 0 2
   = chrom_yearly_sinusoid \<lparr>day = 86400, fyr = 1 / 31557600\<rparr>
     [0, 7889400] [1400, 700] (- 7) 0 2"
  using chrom_yearly_sinusoid_periodic
    [of "\<lparr>day = 86400, fyr = 1 / 31557600\<rparr>" "[0, 7889400]" "[1400, 700]" "- 7" 0 2]
  by simp



section \<open>Properties of float64 rounding\<close>

text \<open>The binary exponent of a positive number.\<close>

lemma powi_powr: "(2::real) powi e = 2 powr (of_int e)"
  by (simp add: powr_real_of_int')

lemma floor_log2:
  assumes "2 powi e \<le> x" "x < 2 powi (e + 1)"
  shows "\<lfloor>log 2 x\<rfloor> = e"
proof -
  have "(0::real) < 2 powi e" by simp
  with assms(1) have pos: "0 < x" by linarith
  have a: "of_int e \<le> log 2 x"
    using assms(1) pos unfolding powi_powr by (simp add: le_log_iff)
  have b: "log 2 x < of_int (e + 1)"
    using assms(2) pos unfolding powi_powr by (simp add: log_less_iff)
  show ?thesis using a b by (intro floor_unique) simp_all
qed

lemma log2_bracket:
  assumes "0 < x"
  shows "2 powi \<lfloor>log 2 x\<rfloor> \<le> x \<and> x < 2 powi (\<lfloor>log 2 x\<rfloor> + 1)"
proof -
  have "2 powr (of_int \<lfloor>log 2 x\<rfloor>) \<le> x"
    by (rule le_log_iff [THEN iffD1, OF _ assms]) simp_all
  then have a: "2 powi \<lfloor>log 2 x\<rfloor> \<le> x"
    by (simp only: powi_powr)
  have "log 2 x < of_int (\<lfloor>log 2 x\<rfloor> + 1)" by linarith
  then have "x < 2 powr (of_int (\<lfloor>log 2 x\<rfloor> + 1))"
    by (rule log_less_iff [THEN iffD1, OF _ assms, rotated]) simp
  then have b: "x < 2 powi (\<lfloor>log 2 x\<rfloor> + 1)"
    by (simp only: powi_powr)
  from a b show ?thesis ..
qed

lemma rne_bounds: "x - 1 / 2 \<le> of_int (rne x) \<and> of_int (rne x) \<le> x + 1 / 2"
  unfolding rne_def Let_def by (auto; linarith)

lemma rne_of_int: "rne (of_int m) = m"
  by (simp add: rne_def)

lemma rne_mono_int: "of_int m \<le> x \<Longrightarrow> m \<le> rne x"
  unfolding rne_def Let_def
  by (auto simp: le_floor_iff; linarith)

lemma rne_mono_int_upper: "x \<le> of_int m \<Longrightarrow> rne x \<le> m"
proof -
  assume a: "x \<le> of_int m"
  show ?thesis
  proof (cases "x = of_int m")
    case True then show ?thesis by (simp add: rne_of_int)
  next
    case False
    with a have "x < of_int m" by simp
    then have "\<lfloor>x\<rfloor> < m" by (simp add: floor_less_iff)
    then show ?thesis unfolding rne_def Let_def by auto
  qed
qed

text \<open>
  A number in the normal range rounds to a finite double with the same sign and the same
  binary exponent (or the next power of two); a number of \<open>2^1024\<close> or more overflows.
\<close>

lemma f64_max_gt: "(2::real) powi 1023 < f64_max"
proof -
  have "(2::real) powi 1023 = 2 ^ 52 * 2 ^ 971"
    by (simp add: power_int_def flip: power_add)
  also have "\<dots> < (2 ^ 53 - 1) * 2 ^ 971"
    by (intro mult_strict_right_mono) simp_all
  finally show ?thesis by (simp only: f64_max_def)
qed

lemma f64_round_normal:
  assumes lo: "2 powi e \<le> \<bar>x\<bar>" and hi: "\<bar>x\<bar> < 2 powi (e + 1)"
    and e1: "- 1022 \<le> e" and e2: "e \<le> 1022"
  shows "f64_round x = Fin (of_int (rne (x / 2 powi (e - 52))) * 2 powi (e - 52))"
    and "2 ^ 52 \<le> \<bar>rne (x / 2 powi (e - 52))\<bar>"
    and "\<bar>rne (x / 2 powi (e - 52))\<bar> \<le> 2 ^ 53"
    and "0 < x \<Longrightarrow> 0 < rne (x / 2 powi (e - 52))"
    and "x < 0 \<Longrightarrow> rne (x / 2 powi (e - 52)) < 0"
proof -
  let ?u = "(2::real) powi (e - 52)"
  let ?q = "x / ?u"
  let ?m = "rne ?q"
  have u: "0 < ?u" by simp
  have "(0::real) < 2 powi e" by simp
  with lo have x0: "x \<noteq> 0" by linarith
  have fl: "\<lfloor>log 2 \<bar>x\<bar>\<rfloor> = e" using lo hi by (rule floor_log2)
  have u52: "2 powi e = 2 ^ 52 * ?u" 
    by (simp add: power_int_diff)
  have u53: "2 powi (e + 1) = 2 ^ 53 * ?u"
    by (simp add: power_int_diff power_int_add)
  have qlo: "2 ^ 52 \<le> \<bar>?q\<bar>"
    using lo u unfolding u52 by (simp add: pos_le_divide_eq)
  have qhi: "\<bar>?q\<bar> < 2 ^ 53"
    using hi u unfolding u53 by (simp add: pos_divide_less_eq)
  have pos: "2 ^ 52 \<le> ?m \<and> ?m \<le> 2 ^ 53" if "0 < x"
  proof -
    from that u have "0 < ?q" by simp
    with qlo qhi have "of_int (2 ^ 52) \<le> ?q" "?q \<le> of_int (2 ^ 53)" by simp_all
    then show ?thesis by (auto intro: rne_mono_int rne_mono_int_upper)
  qed
  have neg: "- (2 ^ 53) \<le> ?m \<and> ?m \<le> - (2 ^ 52)" if "x < 0"
  proof -
    from that u have "?q < 0" by (simp add: divide_neg_pos)
    with qlo qhi have "of_int (- (2 ^ 53)) \<le> ?q" "?q \<le> of_int (- (2 ^ 52))" by simp_all
    then show ?thesis by (auto intro: rne_mono_int rne_mono_int_upper)
  qed
  from pos neg x0 show m52: "2 ^ 52 \<le> \<bar>?m\<bar>" and m53: "\<bar>?m\<bar> \<le> 2 ^ 53"
    by (cases "0 < x"; force)+
  from pos show "0 < x \<Longrightarrow> 0 < ?m" by force
  from neg show "x < 0 \<Longrightarrow> ?m < 0" by force
  have "\<bar>of_int ?m * ?u\<bar> = of_int \<bar>?m\<bar> * ?u"
    using u by (simp add: abs_mult)
  also have "\<dots> \<le> of_int (2 ^ 53) * ?u"
  proof -
    from m53 have "(of_int \<bar>?m\<bar> :: real) \<le> of_int (2 ^ 53)" by (simp only: of_int_le_iff)
    with u show ?thesis by (intro mult_right_mono) simp_all
  qed
  also have "\<dots> = 2 powi (e + 1)" by (simp add: u53)
  also have "\<dots> \<le> 2 powi 1023"
    using e2 by (intro power_int_increasing) simp_all
  also have "\<dots> < f64_max" by (rule f64_max_gt)
  finally have "\<bar>of_int ?m * ?u\<bar> < f64_max" .
  then have "\<not> f64_max < of_int ?m * ?u" "\<not> of_int ?m * ?u < - f64_max"
    by linarith+
  then show "f64_round x = Fin (of_int ?m * ?u)"
    using x0 e1 by (simp add: f64_round_def fl Let_def max_def)
qed

lemma f64_round_overflow:
  assumes "2 ^ 1024 \<le> x"
  shows "f64_round x = PInf"
proof -
  have x0: "0 < x" using assms by (smt (verit) zero_less_power)
  let ?e = "\<lfloor>log 2 \<bar>x\<bar>\<rfloor>"
  let ?u = "(2::real) powi (?e - 52)"
  have br: "2 powi ?e \<le> x" "x < 2 powi (?e + 1)"
    using log2_bracket [OF x0] x0 by simp_all
  have "(2::real) powi 1024 \<le> x" using assms by simp
  then have "(2::real) powi 1024 < 2 powi (?e + 1)" using br(2) by linarith
  have e: "1024 \<le> ?e"
  proof (rule ccontr)
    assume "\<not> 1024 \<le> ?e"
    then have "?e + 1 \<le> 1024" by simp
    then have "(2::real) powi (?e + 1) \<le> 2 powi 1024"
      by (intro power_int_increasing) simp_all
    with \<open>(2::real) powi 1024 < 2 powi (?e + 1)\<close> show False by linarith
  qed
  have u: "0 < ?u" by simp
  have u52: "2 powi ?e = 2 ^ 52 * ?u"
    by (simp add: power_int_diff)
  have "of_int (2 ^ 52) \<le> x / ?u"
    using br(1) u unfolding u52 by (simp add: pos_le_divide_eq)
  then have "2 ^ 52 \<le> rne (x / ?u)" by (rule rne_mono_int)
  then have "(of_int (2 ^ 52) :: real) \<le> of_int (rne (x / ?u))" by (simp only: of_int_le_iff)
  then have "of_int (2 ^ 52) * ?u \<le> of_int (rne (x / ?u)) * ?u"
    using u by (intro mult_right_mono) simp_all
  then have "2 powi ?e \<le> of_int (rne (x / ?u)) * ?u" by (simp add: u52)
  moreover have "(2::real) powi 1024 \<le> 2 powi ?e"
    using e by (intro power_int_increasing) simp_all
  moreover have "f64_max < 2 powi 1024"
  proof -
    have "f64_max < 2 ^ 53 * 2 ^ 971"
      unfolding f64_max_def by (intro mult_strict_right_mono) simp_all
    also have "\<dots> = 2 powi 1024" by (simp add: power_int_def flip: power_add)
    finally show ?thesis .
  qed
  ultimately have "f64_max < of_int (rne (x / ?u)) * ?u" by linarith
  then show ?thesis
    using x0 e by (simp add: f64_round_def Let_def max_def)
qed

lemma f64_round_bounds:
  assumes lo: "2 powi lo \<le> \<bar>x\<bar>" and hi: "\<bar>x\<bar> < 2 powi hi"
    and l1: "- 1022 \<le> lo" and h1: "hi \<le> 1023"
  shows "\<exists>r. f64_round x = Fin r \<and> 2 powi lo \<le> \<bar>r\<bar> \<and> \<bar>r\<bar> \<le> 2 powi hi
           \<and> (0 < x \<longrightarrow> 0 < r) \<and> (x < 0 \<longrightarrow> r < 0)"
proof -
  let ?e = "\<lfloor>log 2 \<bar>x\<bar>\<rfloor>"
  let ?u = "(2::real) powi (?e - 52)"
  let ?m = "rne (x / ?u)"
  have "(0::real) < 2 powi lo" by simp
  with lo have x0: "0 < \<bar>x\<bar>" by linarith
  have br: "2 powi ?e \<le> \<bar>x\<bar>" "\<bar>x\<bar> < 2 powi (?e + 1)"
    using log2_bracket [OF x0] by simp_all
  have e_lo: "lo \<le> ?e"
  proof (rule ccontr)
    assume "\<not> lo \<le> ?e"
    then have "?e + 1 \<le> lo" by simp
    then have "(2::real) powi (?e + 1) \<le> 2 powi lo"
      by (intro power_int_increasing) simp_all
    with br(2) lo show False by linarith
  qed
  have e_hi: "?e + 1 \<le> hi"
  proof (rule ccontr)
    assume "\<not> ?e + 1 \<le> hi"
    then have "hi \<le> ?e" by simp
    then have "(2::real) powi hi \<le> 2 powi ?e"
      by (intro power_int_increasing) simp_all
    with br(1) hi show False by linarith
  qed
  have e1: "- 1022 \<le> ?e" and e2: "?e \<le> 1022" using e_lo e_hi l1 h1 by linarith+
  note n = f64_round_normal [OF br e1 e2]
  have u: "0 < ?u" by simp
  have u52: "2 powi ?e = 2 ^ 52 * ?u" by (simp add: power_int_diff)
  have u53: "2 powi (?e + 1) = 2 ^ 53 * ?u" by (simp add: power_int_diff power_int_add)
  have abs: "\<bar>of_int ?m * ?u\<bar> = of_int \<bar>?m\<bar> * ?u" using u by (simp add: abs_mult)
  have "(of_int (2 ^ 52) :: real) \<le> of_int \<bar>?m\<bar>" using n(2) by (simp only: of_int_le_iff)
  then have "of_int (2 ^ 52) * ?u \<le> of_int \<bar>?m\<bar> * ?u"
    using u by (intro mult_right_mono) simp_all
  then have a: "2 powi ?e \<le> \<bar>of_int ?m * ?u\<bar>" by (simp add: u52 abs)
  have "(of_int \<bar>?m\<bar> :: real) \<le> of_int (2 ^ 53)" using n(3) by (simp only: of_int_le_iff)
  then have "of_int \<bar>?m\<bar> * ?u \<le> of_int (2 ^ 53) * ?u"
    using u by (intro mult_right_mono) simp_all
  then have b: "\<bar>of_int ?m * ?u\<bar> \<le> 2 powi (?e + 1)" by (simp add: u53 abs)
  have "(2::real) powi lo \<le> 2 powi ?e"
    using e_lo by (intro power_int_increasing) simp_all
  with a have c: "2 powi lo \<le> \<bar>of_int ?m * ?u\<bar>" by linarith
  have "(2::real) powi (?e + 1) \<le> 2 powi hi"
    using e_hi by (intro power_int_increasing) simp_all
  with b have d: "\<bar>of_int ?m * ?u\<bar> \<le> 2 powi hi" by linarith
  have p: "0 < x \<longrightarrow> 0 < of_int ?m * ?u"
    using n(4) u by (auto intro: mult_pos_pos)
  have q: "x < 0 \<longrightarrow> of_int ?m * ?u < 0"
    using n(5) u by (auto intro: mult_neg_pos)
  from n(1) c d p q show ?thesis by blast
qed

lemma rne_eq: "of_int m - 1 / 2 < q \<Longrightarrow> q < of_int m + 1 / 2 \<Longrightarrow> rne q = m"
proof -
  assume a: "of_int m - 1 / 2 < q" and b: "q < of_int m + 1 / 2"
  show ?thesis
  proof (cases "of_int m \<le> q")
    case True
    with b have "\<lfloor>q\<rfloor> = m" by (intro floor_unique) simp_all
    with b show ?thesis by (simp add: rne_def Let_def)
  next
    case False
    with a have "\<lfloor>q\<rfloor> = m - 1" by (intro floor_unique) simp_all
    with a show ?thesis by (simp add: rne_def Let_def)
  qed
qed

lemma f64_round_eval:
  assumes "2 powi e \<le> \<bar>x\<bar>" "\<bar>x\<bar> < 2 powi (e + 1)" "- 1022 \<le> e" "e \<le> 1022"
    and "of_int m - 1 / 2 < x / 2 powi (e - 52)" "x / 2 powi (e - 52) < of_int m + 1 / 2"
  shows "f64_round x = Fin (of_int m * 2 powi (e - 52))"
  using f64_round_normal(1) [OF assms(1-4)] rne_eq [OF assms(5,6)] by simp

lemma f64_round_exact:
  assumes "2 powi e \<le> \<bar>x\<bar>" "\<bar>x\<bar> < 2 powi (e + 1)" "- 1022 \<le> e" "e \<le> 1022"
    and "x / 2 powi (e - 52) = of_int m"
  shows "f64_round x = Fin x"
proof -
  have "f64_round x = Fin (of_int m * 2 powi (e - 52))"
    using f64_round_normal(1) [OF assms(1-4)] by (simp add: assms(5) rne_of_int)
  also have "of_int m * 2 powi (e - 52) = x"
    using assms(5) by (simp add: field_simps)
  finally show ?thesis .
qed

section \<open>The waveform functions in float64\<close>

text \<open>
  A lower bound for \<open>pi\<close> from Machin's formula and the alternating series of the
  arctangent: \<open>pi\<close> exceeds \<open>np.pi\<close> by more than \<open>2^-54\<close>.
\<close>

lemma arctan_partial_sums:
  assumes "0 < x" "x \<le> 1"
  shows "(\<Sum>i<2 * n. (- 1) ^ i * (1 / real (i * 2 + 1) * x ^ (i * 2 + 1))) \<le> arctan x"
    and "arctan x \<le> (\<Sum>i<2 * n + 1. (- 1) ^ i * (1 / real (i * 2 + 1) * x ^ (i * 2 + 1)))"
proof -
  have ax: "\<bar>x\<bar> \<le> 1" using assms by simp
  have a0: "0 < 1 / real (0 * 2 + 1) * x ^ (0 * 2 + 1)" using assms by simp
  from summable_Leibniz(2) [OF zeroseq_arctan_series [OF ax] monoseq_arctan_series [OF ax]] a0
  have "(\<Sum>i. (- 1) ^ i * (1 / real (i * 2 + 1) * x ^ (i * 2 + 1)))
          \<in> {\<Sum>i<2 * n. (- 1) ^ i * (1 / real (i * 2 + 1) * x ^ (i * 2 + 1)) ..
              \<Sum>i<2 * n + 1. (- 1) ^ i * (1 / real (i * 2 + 1) * x ^ (i * 2 + 1))}"
    by blast
  then show "(\<Sum>i<2 * n. (- 1) ^ i * (1 / real (i * 2 + 1) * x ^ (i * 2 + 1))) \<le> arctan x"
    and "arctan x \<le> (\<Sum>i<2 * n + 1. (- 1) ^ i * (1 / real (i * 2 + 1) * x ^ (i * 2 + 1)))"
    by (simp_all add: arctan_series [OF ax])
qed

lemma pi_lower: "884279719003555 / 2 ^ 48 + 1 / 2 ^ 54 \<le> pi"
proof -
  have s5: "(\<Sum>i<2 * 6. (- 1) ^ i * (1 / real (i * 2 + 1) * (1 / 5) ^ (i * 2 + 1)))
              = (157490522761940959144868 / 797842276096343994140625 :: real)"
    by (simp add: eval_nat_numeral)
  have s239: "(\<Sum>i<2 * 2 + 1. (- 1) ^ i * (1 / real (i * 2 + 1) * (1 / 239) ^ (i * 2 + 1)))
              = (3353445302593898272583 / 801478104348738532136085 :: real)"
    by (simp add: eval_nat_numeral)
  have a: "157490522761940959144868 / 797842276096343994140625 \<le> arctan (1 / 5)"
    using arctan_partial_sums(1) [of "1 / 5" 6] unfolding s5 by simp
  have b: "arctan (1 / 239) \<le> 3353445302593898272583 / 801478104348738532136085"
    using arctan_partial_sums(2) [of "1 / 239" 2] unfolding s239 by simp
  have "pi = 16 * arctan (1 / 5) - 4 * arctan (1 / 239)"
    using machin by simp
  with a b show ?thesis by simp
qed

text \<open>
  The roundings met when the yearly sinusoid is evaluated at TOA 0 and at TOA 0 shifted
  by \<open>1 / const.fyr\<close>, with \<open>const.fyr\<close> the double \<open>1.0 / 31557600.0\<close>, that is
  \<open>4788568441574411 / 2^77\<close>.
\<close>

lemma r_two_pi: "f64_round (2 * np_pi) = Fin (884279719003555 / 2 ^ 47)"
  using f64_round_exact [of 2 "2 * np_pi" 7074237752028440]
  by (simp add: np_pi_def power_int_minus)

lemma r_k: "f64_round (884279719003555 / 2 ^ 47 * (4788568441574411 / 2 ^ 77))
              = Fin (7521865718631047 / 2 ^ 75)"
  using f64_round_eval [of "- 23" "884279719003555 / 2 ^ 47 * (4788568441574411 / 2 ^ 77)"
      7521865718631047]
  by (simp add: power_int_minus)

lemma r_year: "f64_round (1 / (4788568441574411 / 2 ^ 77)) = Fin (8471178746265601 / 2 ^ 28)"
  using f64_round_eval [of 24 "1 / (4788568441574411 / 2 ^ 77)" 8471178746265601]
  by (simp add: power_int_minus)

lemma r_year_exact: "f64_round (8471178746265601 / 2 ^ 28) = Fin (8471178746265601 / 2 ^ 28)"
  using f64_round_exact [of 24 "8471178746265601 / 2 ^ 28" 8471178746265601]
  by (simp add: power_int_minus)

lemma r_b: "f64_round (7521865718631047 / 2 ^ 75 * (8471178746265601 / 2 ^ 28))
              = Fin (884279719003555 / 2 ^ 47)"
  using f64_round_eval [of 2 "7521865718631047 / 2 ^ 75 * (8471178746265601 / 2 ^ 28)"
      7074237752028440]
  by (simp add: power_int_minus)

lemma r_b_exact: "f64_round (884279719003555 / 2 ^ 47) = Fin (884279719003555 / 2 ^ 47)"
  using f64_round_exact [of 2 "884279719003555 / 2 ^ 47" 7074237752028440]
  by (simp add: power_int_minus)

lemma r_one: "f64_round 1 = Fin 1"
  using f64_round_exact [of 0 1 "2 ^ 52"] by (simp add: power_int_minus)

text \<open>
  The shifted argument of the sine is the double \<open>2 * np.pi\<close>, which lies just below
  \<open>2 * pi\<close>: its sine is negative, and not small enough to round to zero.
\<close>

lemma sin_small: "(2::real) powi (- 54) \<le> sin (1 / 2 ^ 53)"
proof -
  let ?x = "1 / 2 ^ 53 :: real"
  have "(\<Sum>m<3. sin_coeff m * ?x ^ m) = ?x"
    by (simp add: sin_coeff_def eval_nat_numeral)
  with Maclaurin_sin_bound [of ?x 3]
  have "\<bar>sin ?x - ?x\<bar> \<le> inverse (fact 3) * \<bar>?x\<bar> ^ 3" by simp
  then have "?x - inverse (fact 3) * \<bar>?x\<bar> ^ 3 \<le> sin ?x" by linarith
  moreover have "(2::real) powi (- 54) \<le> ?x - inverse (fact 3) * \<bar>?x\<bar> ^ 3"
    by (simp add: power_int_minus eval_nat_numeral)
  ultimately show ?thesis by linarith
qed

lemma sin_two_np_pi:
  "sin (884279719003555 / 2 ^ 47 :: real) \<le> - (2 powi (- 54))"
  "- 1 \<le> sin (884279719003555 / 2 ^ 47 :: real)"
proof -
  let ?b = "884279719003555 / 2 ^ 47 :: real"
  let ?d = "2 * pi - ?b"
  have d_lo: "1 / 2 ^ 53 \<le> ?d" using pi_lower by simp
  have d_hi: "?d \<le> pi / 2" using pi_less_4 by simp
  have "sin (1 / 2 ^ 53) \<le> sin ?d"
    using d_lo d_hi by (intro sin_monotone_2pi_le) (simp_all add: order_trans [OF _ pi_ge_zero])
  with sin_small have "2 powi (- 54) \<le> sin ?d" by linarith
  moreover have "sin ?d = - sin ?b" by (rule sin_2pi_minus)
  ultimately show "sin ?b \<le> - (2 powi (- 54))" by linarith
  show "- 1 \<le> sin ?b" by (rule sin_ge_minus_one)
qed

lemma fsin_two_np_pi:
  "\<exists>s. fsin (Fin (884279719003555 / 2 ^ 47)) = Fin s \<and> s < 0
        \<and> 2 powi (- 54) \<le> \<bar>s\<bar> \<and> \<bar>s\<bar> \<le> 2 powi 1"
proof -
  let ?x = "sin (884279719003555 / 2 ^ 47 :: real)"
  have neg: "?x < 0"
    using sin_two_np_pi(1) by (smt (verit) zero_less_power_int zero_less_numeral)
  have "2 powi (- 54) \<le> \<bar>?x\<bar>" using sin_two_np_pi(1) neg by simp
  moreover have "\<bar>?x\<bar> < 2 powi 1"
  proof -
    have "\<bar>?x\<bar> \<le> 1" by (rule abs_sin_le_one)
    moreover have "(2::real) powi 1 = 2" by simp
    ultimately show ?thesis by linarith
  qed
  ultimately obtain r where "f64_round ?x = Fin r" "2 powi (- 54) \<le> \<bar>r\<bar>" "\<bar>r\<bar> \<le> 2 powi 1"
    "x < 0 \<longrightarrow> r < 0" if "x = ?x" for x
    using f64_round_bounds [of "- 54" ?x 1] by auto
  with neg show ?thesis by auto
qed

lemma pow10_m7:
  "\<exists>a. py_pow10 (- 7) = Inr (Fin a) \<and> 0 < a \<and> 2 powi (- 24) \<le> \<bar>a\<bar> \<and> \<bar>a\<bar> \<le> 2 powi (- 23)"
proof -
  have v: "(10::real) powr (- 7) = 1 / 10 ^ 7"
    by (simp add: powr_minus_divide)
  have "2 powi (- 24) \<le> \<bar>1 / 10 ^ 7 :: real\<bar>" "\<bar>1 / 10 ^ 7 :: real\<bar> < 2 powi (- 23)"
    by (simp_all add: power_int_minus)
  from f64_round_bounds [OF this]
  obtain a where "f64_round (1 / 10 ^ 7) = Fin a" "2 powi (- 24) \<le> \<bar>a\<bar>"
    "\<bar>a\<bar> \<le> 2 powi (- 23)" "0 < a"
    by auto
  then show ?thesis by (auto simp: py_pow10_def v)
qed

lemma chromatic_factor_one: "fpow (fdiv (Fin 1400) (Fin 1400)) 2 = Fin 1"
  by (simp add: r_one)

lemma fmul_nonzero:
  assumes "2 powi la \<le> \<bar>a\<bar>" "\<bar>a\<bar> \<le> 2 powi ha" "2 powi lb \<le> \<bar>b\<bar>" "\<bar>b\<bar> \<le> 2 powi hb"
    and "- 1022 \<le> la + lb" "ha + hb + 1 \<le> 1023"
  shows "\<exists>r. fmul (Fin a) (Fin b) = Fin r \<and> 2 powi (la + lb) \<le> \<bar>r\<bar>
           \<and> \<bar>r\<bar> \<le> 2 powi (ha + hb + 1)"
proof -
  have "2 powi la * 2 powi lb \<le> \<bar>a\<bar> * \<bar>b\<bar>"
    using assms(1,3) by (intro mult_mono) simp_all
  then have lo: "2 powi (la + lb) \<le> \<bar>a * b\<bar>"
    by (simp add: power_int_add abs_mult)
  have "\<bar>a\<bar> * \<bar>b\<bar> \<le> 2 powi ha * 2 powi hb"
    using assms(2,4) by (intro mult_mono) simp_all
  also have "\<dots> = 2 powi (ha + hb)" by (simp add: power_int_add)
  also have "\<dots> < 2 powi (ha + hb + 1)"
    by (intro power_int_strict_increasing) simp_all
  finally have hi: "\<bar>a * b\<bar> < 2 powi (ha + hb + 1)" by (simp add: abs_mult)
  from f64_round_bounds [OF lo hi assms(5,6)] show ?thesis by auto
qed

lemma broadcast2_single: "broadcast2 f [x] [y] = Inr [f x y]"
  by (simp add: broadcast2_def)

text \<open>
  Claim C3 as stated fails in float64. With \<open>const.fyr = 1.0 / 31557600.0\<close>, one TOA at
  0, frequency 1400, \<open>log10_Amp = -7\<close>, \<open>phase = 0\<close> and \<open>idx = 2\<close>, the call on
  \<open>toas + 1 / const.fyr\<close> returns a delay that is not zero and the call on \<open>toas\<close>
  returns 0.
\<close>

theorem yearly_sinusoid_f64_not_periodic:
  "chrom_yearly_sinusoid_f64 \<lparr>day = 86400, fyr = 4788568441574411 / 2 ^ 77\<rparr>
     [fadd (Fin 0) (fdiv (Fin 1) (Fin (4788568441574411 / 2 ^ 77)))]
     [Fin 1400] (- 7) 0 2
   \<noteq> chrom_yearly_sinusoid_f64 \<lparr>day = 86400, fyr = 4788568441574411 / 2 ^ 77\<rparr>
     [Fin 0] [Fin 1400] (- 7) 0 2"
proof -
  let ?c = "\<lparr>day = 86400, fyr = 4788568441574411 / 2 ^ 77\<rparr>"
  obtain a where a: "py_pow10 (- 7) = Inr (Fin a)" "2 powi (- 24) \<le> \<bar>a\<bar>" "\<bar>a\<bar> \<le> 2 powi (- 23)"
    using pow10_m7 by blast
  obtain s where s: "fsin (Fin (884279719003555 / 2 ^ 47)) = Fin s"
    "2 powi (- 54) \<le> \<bar>s\<bar>" "\<bar>s\<bar> \<le> 2 powi 1"
    using fsin_two_np_pi by blast
  obtain r where r: "fmul (Fin a) (Fin s) = Fin r" "2 powi (- 24 + - 54) \<le> \<bar>r\<bar>"
    "\<bar>r\<bar> \<le> 2 powi (- 23 + 1 + 1)"
    using fmul_nonzero [OF a(2,3) s(2,3)] by auto
  have one: "2 powi 0 \<le> \<bar>1::real\<bar>" "\<bar>1::real\<bar> \<le> 2 powi 0" by simp_all
  obtain r' where r': "fmul (Fin r) (Fin 1) = Fin r'" "2 powi (- 24 + - 54 + 0) \<le> \<bar>r'\<bar>"
    using fmul_nonzero [OF r(2,3) one] by auto
  have "(0::real) < 2 powi (- 24 + - 54 + 0)" by simp
  with r'(2) have nz: "r' \<noteq> 0" by linarith
  have k: "fmul (fmul (Fin 2) (Fin np_pi)) (Fin (4788568441574411 / 2 ^ 77))
             = Fin (7521865718631047 / 2 ^ 75)"
    by (simp only: fmul.simps r_two_pi r_k)
  have shift: "fadd (Fin 0) (fdiv (Fin 1) (Fin (4788568441574411 / 2 ^ 77)))
                 = Fin (8471178746265601 / 2 ^ 28)"
  proof -
    have "fdiv (Fin 1) (Fin (4788568441574411 / 2 ^ 77)) = Fin (8471178746265601 / 2 ^ 28)"
      using r_year by simp
    moreover have "fadd (Fin 0) (Fin (8471178746265601 / 2 ^ 28)) = Fin (8471178746265601 / 2 ^ 28)"
      using r_year_exact by simp
    ultimately show ?thesis by (simp only:)
  qed
  have arg: "fadd (fmul (Fin (7521865718631047 / 2 ^ 75)) (Fin (8471178746265601 / 2 ^ 28))) (Fin 0)
               = Fin (884279719003555 / 2 ^ 47)"
  proof -
    have "fmul (Fin (7521865718631047 / 2 ^ 75)) (Fin (8471178746265601 / 2 ^ 28))
            = Fin (884279719003555 / 2 ^ 47)"
      by (simp only: fmul.simps r_b)
    moreover have "fadd (Fin (884279719003555 / 2 ^ 47)) (Fin 0) = Fin (884279719003555 / 2 ^ 47)"
      using r_b_exact by simp
    ultimately show ?thesis by (simp only:)
  qed
  have z: "f64_round 0 = Fin 0" by (simp add: f64_round_def)
  have lhs: "chrom_yearly_sinusoid_f64 ?c
       [fadd (Fin 0) (fdiv (Fin 1) (Fin (4788568441574411 / 2 ^ 77)))]
       [Fin 1400] (- 7) 0 2 = Inr [Fin r']"
    unfolding chrom_yearly_sinusoid_f64_def
    by (simp only: a(1) sum.case Let_def constants.select_convs list.map k shift arg s(1) r(1)
        r'(1) chromatic_factor_one broadcast2_single)
  have rhs: "chrom_yearly_sinusoid_f64 ?c [Fin 0] [Fin 1400] (- 7) 0 2 = Inr [Fin 0]"
  proof -
    have m0: "fmul (Fin (7521865718631047 / 2 ^ 75)) (Fin 0) = Fin 0" by (simp add: z)
    have a0: "fadd (Fin 0) (Fin 0) = Fin 0" by (simp add: z)
    have s0: "fsin (Fin 0) = Fin 0" by (simp add: z)
    have am: "fmul (Fin a) (Fin 0) = Fin 0" by (simp add: z)
    have m1: "fmul (Fin 0) (Fin 1) = Fin 0" by (simp add: z)
    show ?thesis
      unfolding chrom_yearly_sinusoid_f64_def
      by (simp only: a(1) sum.case Let_def constants.select_convs list.map k m0 a0 s0 am m1
          chromatic_factor_one broadcast2_single)
  qed
  from lhs rhs nz show ?thesis by simp
qed

text \<open>
  The roundings met when the exponential dip is evaluated 8000 days before the epoch
  \<open>t0 = 57000\<close> with \<open>log10_tau = 1\<close>: every one is exact, and the argument of
  \<open>np.exp\<close> is 800.
\<close>

lemma exp_800_overflows: "fexp (Fin 800) = PInf"
proof -
  have "5 / 2 \<le> exp (1::real)"
    using exp_lower_Taylor_quadratic [of "1::real"] by simp
  then have "(5 / 2) ^ 800 \<le> exp (1::real) ^ 800"
    by (intro power_mono) simp_all
  also have "exp (1::real) ^ 800 = exp 800"
    using exp_of_nat_mult [of 800 "1::real"] by simp
  finally have "(5 / 2) ^ 800 \<le> exp (800::real)" .
  moreover have "(2::real) ^ 1024 \<le> (5 / 2) ^ 800"
  proof -
    have "(2::real) ^ 32 \<le> (5 / 2) ^ 25" by (simp add: power_divide)
    then have "((2::real) ^ 32) ^ 32 \<le> ((5 / 2) ^ 25) ^ 32"
      by (intro power_mono) simp_all
    then show ?thesis by (simp only: flip: power_mult) simp
  qed
  ultimately have "(2::real) ^ 1024 \<le> exp 800" by linarith
  then show ?thesis by (simp only: fexp.simps f64_round_overflow)
qed

lemma r_t0: "fmul (Fin 57000) (Fin 86400) = Fin 4924800000"
  using f64_round_exact [of 32 "57000 * 86400" "4924800000 * 2 ^ 20"]
  by (simp add: power_int_minus)

lemma r_pow10_1: "py_pow10 1 = Inr (Fin 10)"
  using f64_round_exact [of 3 10 "10 * 2 ^ 49"]
  by (simp add: py_pow10_def power_int_minus)

lemma r_tau: "fmul (Fin 10) (Fin 86400) = Fin 864000"
  using f64_round_exact [of 19 "10 * 86400" "864000 * 2 ^ 33"]
  by (simp add: power_int_minus)

lemma r_d: "fsub (Fin 4233600000) (Fin 4924800000) = Fin (- 691200000)"
  using f64_round_exact [of 29 "4233600000 + - 4924800000" "- 691200000 * 2 ^ 23"]
  by (simp add: fsub_def power_int_minus)

lemma r_q: "fdiv (fneg (Fin (- 691200000))) (Fin 864000) = Fin 800"
  using f64_round_exact [of 9 "691200000 / 864000" "800 * 2 ^ 43"]
  by (simp add: power_int_minus)

text \<open>
  Claim C1 fails on the code. The body multiplies the Heaviside step by the exponential
  and evaluates the exponential before the epoch too, where its argument is positive.
  For a TOA at MJD 49000 (4233600000 s), \<open>t0 = 57000\<close>, \<open>log10_tau = 1\<close> (ten days),
  \<open>log10_Amp = -7\<close>, frequency 1400 and \<open>idx = 2\<close> the step is 0, \<open>np.exp(800)\<close>
  overflows to \<open>inf\<close>, and \<open>0 * inf\<close> is \<open>nan\<close>: the function returns \<open>nan\<close> where
  the closed form is 0.
\<close>

theorem chrom_exp_decay_f64_nan:
  "chrom_exp_decay_f64 \<lparr>day = 86400, fyr = 4788568441574411 / 2 ^ 77\<rparr>
     [Fin 4233600000] [Fin 1400] (- 7) 57000 1 2 = Inr [NaN]
   \<and> exp_dip_formula 86400 (- 7) 57000 1 2 4233600000 1400 = 0"
proof -
  obtain a where a: "py_pow10 (- 7) = Inr (Fin a)"
    using pow10_m7 by blast
  have z: "f64_round 0 = Fin 0" by (simp add: f64_round_def)
  have h: "fheaviside (Fin (- 691200000)) (Fin 1) = Fin 0" by simp
  have ah: "fmul (fneg (Fin a)) (Fin 0) = Fin 0" by (simp add: z)
  have prod: "fmul (Fin 0) PInf = NaN" by simp
  have last: "fmul NaN (Fin 1) = NaN" by simp
  have "chrom_exp_decay_f64 \<lparr>day = 86400, fyr = 4788568441574411 / 2 ^ 77\<rparr>
     [Fin 4233600000] [Fin 1400] (- 7) 57000 1 2 = Inr [NaN]"
    unfolding chrom_exp_decay_f64_def
    by (simp only: a sum.case Let_def constants.select_convs list.map r_t0 r_pow10_1 r_tau r_d
        r_q h ah exp_800_overflows prod last chromatic_factor_one broadcast2_single)
  moreover have "exp_dip_formula 86400 (- 7) 57000 1 2 4233600000 1400 = 0"
    by (simp add: exp_dip_formula_def H_def)
  ultimately show ?thesis ..
qed

section \<open>Properties of the file selection\<close>

lemma split_not_Nil: "split sep s \<noteq> []"
  by (induction s) (auto split: list.splits)

lemma hd_split: "hd (split sep s) = takeWhile (\<lambda>c. c \<noteq> sep) s"
  using split_not_Nil by (induction s) (auto split: list.splits)

lemma split_no_sep: "sep \<notin> set s \<Longrightarrow> split sep s = [s]"
  by (induction s) auto

lemma split_append: "split sep (a @ sep # b) = split sep a @ split sep b"
  using split_not_Nil by (induction a) (auto split: list.splits)

lemma takeWhile_rev_no_sep:
  "sep \<notin> set b \<Longrightarrow> takeWhile (\<lambda>c. c \<noteq> sep) (rev b @ sep # r) = rev b"
  by (induction b rule: rev_induct) auto

lemma last_split: "last (split sep s) = rev (takeWhile (\<lambda>c. c \<noteq> sep) (rev s))"
proof (cases "sep \<in> set s")
  case False
  then have "takeWhile (\<lambda>c. c \<noteq> sep) (rev s) = rev s"
    by (intro takeWhile_eq_all_conv [THEN iffD2]) auto
  then have "rev (takeWhile (\<lambda>c. c \<noteq> sep) (rev s)) = s"
    by (simp only: rev_rev_ident)
  moreover have "last (split sep s) = s"
    using False by (simp add: split_no_sep)
  ultimately show ?thesis by (simp only:)
next
  case True
  then obtain a b where s: "s = a @ sep # b" and b: "sep \<notin> set b"
    by (auto dest: split_list_last)
  have "last (split sep s) = last (split sep b)"
    using split_not_Nil [of sep b] by (simp add: s split_append)
  also have "\<dots> = b" using b by (simp add: split_no_sep)
  also have "\<dots> = rev (takeWhile (\<lambda>c. c \<noteq> sep) (rev s))"
    using b by (simp add: s takeWhile_rev_no_sep)
  finally show ?thesis .
qed

text \<open>The expression of the comprehension computes the pulsar name of the specification.\<close>

lemma psr_of_path_eq: "psr_of_path x = name_prefix x"
  by (simp add: psr_of_path_def name_prefix_def basename_def hd_split last_split)

lemma filter_files_props:
  "(\<forall>x \<in> set (filter_files fs). name_prefix x \<in> set psrlist)
   \<and> subseq (filter_files fs) fs
   \<and> (\<forall>x \<in> set fs. name_prefix x \<in> set psrlist \<longrightarrow> x \<in> set (filter_files fs))
   \<and> filter_files fs = [x \<leftarrow> fs. name_prefix x \<in> set psrlist]"
  by (simp add: filter_files_def psr_of_path_eq)

text \<open>
  Claim C8. After the filtering, every path of \<open>parfiles\<close> and of \<open>timfiles\<close> has a
  basename whose part before the first \<open>.\<close> is a key of \<open>psrdict\<close>, that is a member
  of \<open>psrlist\<close>; each filtered list is a subsequence of the sorted glob result, in the
  same order; and it keeps every path whose pulsar name is in \<open>psrlist\<close>.
\<close>

theorem filtered_files_in_psrlist:
  "(\<forall>x \<in> set (parfiles gp). name_prefix x \<in> fst ` set psrdict \<and> name_prefix x \<in> set psrlist)
   \<and> (\<forall>x \<in> set (timfiles gt). name_prefix x \<in> fst ` set psrdict \<and> name_prefix x \<in> set psrlist)
   \<and> subseq (parfiles gp) (sort gp)
   \<and> subseq (timfiles gt) (sort gt)
   \<and> parfiles gp = [x \<leftarrow> sort gp. name_prefix x \<in> set psrlist]
   \<and> timfiles gt = [x \<leftarrow> sort gt. name_prefix x \<in> set psrlist]
   \<and> (\<forall>x \<in> set gp. name_prefix x \<in> set psrlist \<longrightarrow> x \<in> set (parfiles gp))
   \<and> (\<forall>x \<in> set gt. name_prefix x \<in> set psrlist \<longrightarrow> x \<in> set (timfiles gt))"
proof -
  have keys: "set psrlist = fst ` set psrdict"
    by (simp add: psrlist_def)
  have p: "parfiles gp = filter_files (sort gp)" and t: "timfiles gt = filter_files (sort gt)"
    by (simp_all only: parfiles_def timfiles_def)
  have sp: "set (sort gp) = set gp" and st: "set (sort gt) = set gt"
    by simp_all
  show ?thesis
    using filter_files_props [of "sort gp"] filter_files_props [of "sort gt"]
    unfolding p t sp st keys [symmetric] by blast
qed

theorem filtered_files_in_psrlist_witness:
  "parfiles [''d//J9999+0000.par'', ''d//J1909-3744.par'', ''d//J1713+0747.par'']
     = [''d//J1713+0747.par'', ''d//J1909-3744.par'']
   \<and> name_prefix ''d//J1713+0747.par'' \<in> set psrlist
   \<and> name_prefix ''d//J1909-3744.tim'' \<in> set psrlist"
proof -
  let ?gp = "[''d//J9999+0000.par'', ''d//J1909-3744.par'', ''d//J1713+0747.par'']"
  let ?gt = "[''d//J1909-3744.tim'', ''d//J0000+0000.tim'']"
  have par: "parfiles ?gp = [''d//J1713+0747.par'', ''d//J1909-3744.par'']"
    by code_simp
  have tim: "timfiles ?gt = [''d//J1909-3744.tim'']"
    by code_simp
  have a: "''d//J1713+0747.par'' \<in> set (parfiles ?gp)"
    unfolding par by (rule list.set_intros)
  have b: "''d//J1909-3744.tim'' \<in> set (timfiles ?gt)"
    unfolding tim by (rule list.set_intros)
  from filtered_files_in_psrlist [of ?gp ?gt]
  have "\<forall>x \<in> set (parfiles ?gp). name_prefix x \<in> set psrlist"
    and "\<forall>x \<in> set (timfiles ?gt). name_prefix x \<in> set psrlist"
    by blast+
  with a b have "name_prefix ''d//J1713+0747.par'' \<in> set psrlist"
    "name_prefix ''d//J1909-3744.tim'' \<in> set psrlist"
    by blast+
  with par show ?thesis by blast
qed

section \<open>Properties of the loading of the noise dictionaries\<close>

lemma update_loop_ok:
  "\<forall>f \<in> set fs. load f = Inr (d f) \<Longrightarrow>
     update_loop load m fs = Inr (foldl (++) m (map d fs))"
  by (induction fs arbitrary: m) simp_all

lemma dom_foldl_map_add:
  "dom (foldl (++) m (map d fs)) = dom m \<union> (\<Union>f \<in> set fs. dom (d f))"
  by (induction fs arbitrary: m) auto

lemma foldl_map_add_last:
  assumes "sorted fs" "f \<in> set fs" "k \<in> dom (d f)"
    and "\<forall>g \<in> set fs. k \<in> dom (d g) \<longrightarrow> g \<le> f"
  shows "foldl (++) m (map d fs) k = d f k"
  using assms
proof (induction fs rule: rev_induct)
  case Nil
  then show ?case by simp
next
  case (snoc x xs)
  show ?case
  proof (cases "k \<in> dom (d x)")
    case True
    have "f \<le> x" using snoc.prems(1,2) by (auto simp: sorted_append)
    moreover have "x \<le> f" using snoc.prems(4) True by simp
    ultimately have "x = f" by simp
    with True show ?thesis by (simp add: map_add_dom_app_simps)
  next
    case False
    with snoc.prems(3) have "f \<noteq> x" by auto
    with snoc.prems have "foldl (++) m (map d xs) k = d f k"
      by (intro snoc.IH) (auto simp: sorted_append)
    with False show ?thesis by (simp add: map_add_dom_app_simps)
  qed
qed

text \<open>
  Claim C9. When every noise file loads, \<open>params\<close> is the left fold of
  \<open>dict.update\<close> over the dictionaries of the files in sorted filename order: its
  keys are the keys of all the files, and a key has the value it has in the
  lexicographically last file that contains it.
\<close>

theorem params_last_file_wins:
  assumes "\<forall>f \<in> set g. load f = Inr (d f)"
  shows "\<exists>params. load_params load g = Inr params
           \<and> params = foldl (++) Map.empty (map d (sort g))
           \<and> dom params = (\<Union>f \<in> set g. dom (d f))
           \<and> (\<forall>f \<in> set g. \<forall>k \<in> dom (d f).
                 (\<forall>f' \<in> set g. k \<in> dom (d f') \<longrightarrow> f' \<le> f) \<longrightarrow> params k = d f k)"
proof -
  let ?params = "foldl (++) Map.empty (map d (sort g))"
  from assms have "\<forall>f \<in> set (sort g). load f = Inr (d f)" by simp
  then have run: "load_params load g = Inr ?params"
    unfolding load_params_def noisefiles_def by (rule update_loop_ok)
  have keys: "dom ?params = (\<Union>f \<in> set g. dom (d f))"
    by (simp add: dom_foldl_map_add)
  have last: "?params k = d f k"
    if "f \<in> set g" "k \<in> dom (d f)" "\<forall>f' \<in> set g. k \<in> dom (d f') \<longrightarrow> f' \<le> f" for f k
    using that by (intro foldl_map_add_last) simp_all
  from run keys last show ?thesis by blast
qed

theorem params_last_file_wins_witness:
  "\<exists>params.
     load_params (\<lambda>f. if f = ''n/b.json'' then Inr [''efac'' \<mapsto> 2 :: real]
                       else (Inr [''efac'' \<mapsto> 1, ''equad'' \<mapsto> 5] :: error + (string \<rightharpoonup> real)))
       [''n/b.json'', ''n/a.json''] = Inr params
     \<and> params ''efac'' = Some 2 \<and> params ''equad'' = Some 5"
proof -
  let ?d = "\<lambda>f. if f = ''n/b.json'' then [''efac'' \<mapsto> 2 :: real]
                 else [''efac'' \<mapsto> 1, ''equad'' \<mapsto> 5]"
  let ?load = "\<lambda>f. if f = ''n/b.json'' then Inr [''efac'' \<mapsto> 2 :: real]
                       else (Inr [''efac'' \<mapsto> 1, ''equad'' \<mapsto> 5] :: error + (string \<rightharpoonup> real))"
  let ?g = "[''n/b.json'', ''n/a.json'']"
  have hyp: "\<forall>f \<in> set ?g. ?load f = Inr (?d f)" by simp
  from params_last_file_wins [of ?g ?load ?d, OF hyp]
  obtain params where run: "load_params ?load ?g = Inr params"
    and last: "\<forall>f \<in> set ?g. \<forall>k \<in> dom (?d f).
                 (\<forall>f' \<in> set ?g. k \<in> dom (?d f') \<longrightarrow> f' \<le> f) \<longrightarrow> params k = ?d f k"
    by blast
  have le: "(''n/a.json'' :: string) \<le> ''n/b.json''" by simp
  have "params ''efac'' = ?d ''n/b.json'' ''efac''"
    by (rule last [rule_format]) (use le in auto)
  moreover have "params ''equad'' = ?d ''n/a.json'' ''equad''"
    by (rule last [rule_format]) auto
  ultimately show ?thesis using run by simp
qed

section \<open>Properties of the model assembly\<close>

lemma assemble1_eq:
  "assemble1 s models ps =
     models @ map (\<lambda>p. if ''NANOGrav'' \<in> set (flags_pta p)
                        then (s @ [EcorrKernelNoise], p) else (s, p)) ps"
  by (induction ps arbitrary: models) simp_all

lemma assemble2_eq:
  assumes "tmin \<noteq> []" "tmax \<noteq> []"
  shows "assemble2 tmin tmax s models ps =
     Inr (models @ map (\<lambda>p.
        if ''NANOGrav'' \<in> set (flags_pta p)
        then if psr_name p = ''J1713+0747''
             then (s @ [EcorrKernelNoise]
                     @ [DmExpDip (Min (set tmin) / 86400) (Max (set tmax) / 86400)], p)
             else (s @ [EcorrKernelNoise], p)
        else (s, p)) ps)"
  using assms
  by (induction ps arbitrary: models) (simp_all add: np_min_def np_max_def Let_def)

lemma is_dip_simps:
  "is_dip (DmExpDip lo hi)" "\<not> is_dip EcorrKernelNoise" "\<not> is_dip DmAnnual"
  "\<forall>t \<in> set s_full. \<not> is_dip t"
  by (simp_all add: is_dip_def s_full_def)

text \<open>
  Claim C10. In both assembly loops the model of a pulsar contains the
  \<open>EcorrKernelNoise\<close> term exactly when \<open>NANOGrav\<close> is among the pulsar's \<open>pta\<close>
  flags. In the second assembly the exponential dip is there exactly when the pulsar is a
  NANOGrav pulsar named \<open>J1713+0747\<close>. Every other term (efac, equad, red noise, DM GP,
  timing model, ephemeris, GWB, and in the second assembly the annual DM term) is in the
  model of every pulsar. \<open>tmin\<close> and \<open>tmax\<close> hold one entry for every pulsar, as the
  notebook computes them.
\<close>

theorem ecorr_and_dip_inclusion:
  assumes "i < length psrs" and "length tmin = length psrs" and "length tmax = length psrs"
  shows "length (models1 psrs) = length psrs
     \<and> snd (models1 psrs ! i) = psrs ! i
     \<and> (EcorrKernelNoise \<in> set (fst (models1 psrs ! i))
          \<longleftrightarrow> ''NANOGrav'' \<in> set (flags_pta (psrs ! i)))
     \<and> {MeasurementNoise, EquadNoise, RedNoise, DmGP, TimingModel, PhysicalEphemerisSignal, GWB}
          \<subseteq> set (fst (models1 psrs ! i))
     \<and> (\<exists>ms. models2 tmin tmax psrs = Inr ms
          \<and> length ms = length psrs
          \<and> snd (ms ! i) = psrs ! i
          \<and> (EcorrKernelNoise \<in> set (fst (ms ! i))
               \<longleftrightarrow> ''NANOGrav'' \<in> set (flags_pta (psrs ! i)))
          \<and> ((\<exists>t \<in> set (fst (ms ! i)). is_dip t)
               \<longleftrightarrow> ''NANOGrav'' \<in> set (flags_pta (psrs ! i))
                    \<and> psr_name (psrs ! i) = ''J1713+0747'')
          \<and> {MeasurementNoise, EquadNoise, RedNoise, DmGP, TimingModel, PhysicalEphemerisSignal,
              GWB, DmAnnual} \<subseteq> set (fst (ms ! i)))"
proof -
  from assms have ne: "tmin \<noteq> []" "tmax \<noteq> []" by auto
  have first: "length (models1 psrs) = length psrs
     \<and> snd (models1 psrs ! i) = psrs ! i
     \<and> (EcorrKernelNoise \<in> set (fst (models1 psrs ! i))
          \<longleftrightarrow> ''NANOGrav'' \<in> set (flags_pta (psrs ! i)))
     \<and> {MeasurementNoise, EquadNoise, RedNoise, DmGP, TimingModel, PhysicalEphemerisSignal, GWB}
          \<subseteq> set (fst (models1 psrs ! i))"
    using assms(1) by (simp add: models1_def assemble1_eq s_full_def)
  let ?m = "\<lambda>p. if ''NANOGrav'' \<in> set (flags_pta p)
        then if psr_name p = ''J1713+0747''
             then ((s_full @ [DmAnnual]) @ [EcorrKernelNoise]
                     @ [DmExpDip (Min (set tmin) / 86400) (Max (set tmax) / 86400)], p)
             else ((s_full @ [DmAnnual]) @ [EcorrKernelNoise], p)
        else (s_full @ [DmAnnual], p)"
  have run: "models2 tmin tmax psrs = Inr (map ?m psrs)"
    unfolding models2_def by (simp add: assemble2_eq [OF ne])
  have second: "length (map ?m psrs) = length psrs
          \<and> snd (map ?m psrs ! i) = psrs ! i
          \<and> (EcorrKernelNoise \<in> set (fst (map ?m psrs ! i))
               \<longleftrightarrow> ''NANOGrav'' \<in> set (flags_pta (psrs ! i)))
          \<and> ((\<exists>t \<in> set (fst (map ?m psrs ! i)). is_dip t)
               \<longleftrightarrow> ''NANOGrav'' \<in> set (flags_pta (psrs ! i))
                    \<and> psr_name (psrs ! i) = ''J1713+0747'')
          \<and> {MeasurementNoise, EquadNoise, RedNoise, DmGP, TimingModel, PhysicalEphemerisSignal,
              GWB, DmAnnual} \<subseteq> set (fst (map ?m psrs ! i))"
    using assms(1) by (simp add: s_full_def is_dip_def)
  from first run second show ?thesis by blast
qed

theorem ecorr_and_dip_inclusion_witness:
  "EcorrKernelNoise \<in> set (fst (models1
       [\<lparr>psr_name = ''J1713+0747'', flags_pta = [''NANOGrav'', ''PPTA'']\<rparr>,
        \<lparr>psr_name = ''J0437-4715'', flags_pta = [''PPTA'']\<rparr>] ! 0))
   \<and> EcorrKernelNoise \<notin> set (fst (models1
       [\<lparr>psr_name = ''J1713+0747'', flags_pta = [''NANOGrav'', ''PPTA'']\<rparr>,
        \<lparr>psr_name = ''J0437-4715'', flags_pta = [''PPTA'']\<rparr>] ! 1))
   \<and> (\<exists>ms. models2 [53000, 53500] [57000, 57200]
       [\<lparr>psr_name = ''J1713+0747'', flags_pta = [''NANOGrav'', ''PPTA'']\<rparr>,
        \<lparr>psr_name = ''J0437-4715'', flags_pta = [''PPTA'']\<rparr>] = Inr ms
        \<and> (\<exists>t \<in> set (fst (ms ! 0)). is_dip t)
        \<and> \<not> (\<exists>t \<in> set (fst (ms ! 1)). is_dip t))"
proof -
  let ?psrs = "[\<lparr>psr_name = ''J1713+0747'', flags_pta = [''NANOGrav'', ''PPTA'']\<rparr>,
        \<lparr>psr_name = ''J0437-4715'', flags_pta = [''PPTA'']\<rparr>]"
  have len: "(0::nat) < length ?psrs" "(1::nat) < length ?psrs"
    "length [53000, 53500 :: real] = length ?psrs" "length [57000, 57200 :: real] = length ?psrs"
    by simp_all
  have at0: "''NANOGrav'' \<in> set (flags_pta (?psrs ! 0)) \<and> psr_name (?psrs ! 0) = ''J1713+0747''"
    by simp
  have at1: "''NANOGrav'' \<notin> set (flags_pta (?psrs ! 1))"
    by simp
  note a = ecorr_and_dip_inclusion [OF len(1) len(3) len(4)]
  note b = ecorr_and_dip_inclusion [OF len(2) len(3) len(4)]
  from a at0 have e0: "EcorrKernelNoise \<in> set (fst (models1 ?psrs ! 0))" by blast
  from b at1 have e1: "EcorrKernelNoise \<notin> set (fst (models1 ?psrs ! 1))" by blast
  from a obtain ms where ms: "models2 [53000, 53500] [57000, 57200] ?psrs = Inr ms"
    and d0: "(\<exists>t \<in> set (fst (ms ! 0)). is_dip t)
               \<longleftrightarrow> ''NANOGrav'' \<in> set (flags_pta (?psrs ! 0))
                    \<and> psr_name (?psrs ! 0) = ''J1713+0747''"
    by blast
  from b ms have d1: "(\<exists>t \<in> set (fst (ms ! 1)). is_dip t)
               \<longleftrightarrow> ''NANOGrav'' \<in> set (flags_pta (?psrs ! 1))
                    \<and> psr_name (?psrs ! 1) = ''J1713+0747''"
    by auto
  from d0 at0 have "\<exists>t \<in> set (fst (ms ! 0)). is_dip t" by blast
  moreover from d1 at1 have "\<not> (\<exists>t \<in> set (fst (ms ! 1)). is_dip t)" by blast
  ultimately show ?thesis using e0 e1 ms by blast
qed

section \<open>Properties of the post-processing\<close>












end
